theory Spec2Isabelle
  imports Main "HOL-Library.AList" "HOL-Library.Product_Lexorder"
begin

section \<open>Values shared by the pipeline\<close>

text \<open>
  The exceptions the Python code can raise. \<open>HTTPError\<close> is what the GitHub client
  raises for a failed request, \<open>PostgresError\<close> what the database driver raises, and
  \<open>RuntimeError\<close> what \<^verbatim>\<open>crud.py\<close> turns a \<open>PostgresError\<close> into. The others are
  Python's own: a missing dictionary key, subscripting \<^verbatim>\<open>None\<close>, calling a method of
  \<^verbatim>\<open>None\<close>, a string that does not parse, a row the response schema refuses.
\<close>

datatype error =
    HTTPError
  | KeyError string
  | TypeError
  | AttributeError
  | ValueError
  | ValidationError
  | PostgresError
  | RuntimeError

text \<open>
  A key of a JSON object as the code reads it: the key is not there (\<open>Absent\<close>), it is
  there with the value \<^verbatim>\<open>null\<close> (\<open>Null\<close>), or it is there with a value.
\<close>

datatype 'a field = Absent | Null | Val 'a

text \<open>A calendar date is compared as Python compares it: year, then month, then day.\<close>

type_synonym date = "nat \<times> nat \<times> nat"

section \<open>The persisted store\<close>

text \<open>
  A row of \<^verbatim>\<open>top100\<close>; the dictionaries built by \<^verbatim>\<open>fetch_top100_repos\<close> have the
  same keys, so one record serves for both.
\<close>

record top_repo =
  repo :: string
  owner :: string
  position_cur :: int
  position_prev :: "int option"
  stars :: int
  watchers :: int
  forks :: int
  open_issues :: int
  language :: "string option"

text \<open>
  A row of \<^verbatim>\<open>activity\<close>. The authors are a Python set turned into a list in no
  particular order, so the column is kept as a set; an element \<open>None\<close> is Python's
  \<^verbatim>\<open>None\<close>.
\<close>

record activity_row =
  a_owner :: string
  a_repo :: string
  a_date :: date
  a_commits :: int
  a_authors :: "string option set"

text \<open>The statements the code sends, with their parameters in the order of the source.\<close>

datatype statement =
    DeleteTop100NotIn "string set"
  | UpdateTop100 string int int int int int "string option"
  | InsertTop100 string string int "int option" int int int int "string option"
  | UpdateActivity string string date int "string option set"
  | InsertActivity string string date int "string option set"
  | SelectTop100
  | SelectActivity string string date date

text \<open>
  The store: its two tables, every statement sent so far (\<open>calls\<close>, also the ones that
  failed), and \<open>faults\<close>, the positions in \<open>calls\<close> at which the database raises.
\<close>

record store =
  top100 :: "top_repo list"
  activity :: "activity_row list"
  calls :: "statement list"
  faults :: "nat set"

text \<open>What a statement does to the tables, and how many rows it touched.\<close>

fun run_statement :: "statement \<Rightarrow> store \<Rightarrow> nat \<times> store" where
  "run_statement (DeleteTop100NotIn new_repos) s =
     (length (filter (\<lambda>r. repo r \<notin> new_repos) (top100 s)),
      s\<lparr>top100 := filter (\<lambda>r. repo r \<in> new_repos) (top100 s)\<rparr>)"
| "run_statement (UpdateTop100 rp pc st wa fo oi la) s =
     (length (filter (\<lambda>r. repo r = rp) (top100 s)),
      s\<lparr>top100 := map (\<lambda>r. if repo r = rp
                             then r\<lparr>position_prev := Some (position_cur r), position_cur := pc,
                                    stars := st, watchers := wa, forks := fo, open_issues := oi,
                                    language := la\<rparr>
                             else r) (top100 s)\<rparr>)"
| "run_statement (InsertTop100 rp ow pc pp st wa fo oi la) s =
     (1, s\<lparr>top100 := top100 s @
            [\<lparr>repo = rp, owner = ow, position_cur = pc, position_prev = pp, stars = st,
              watchers = wa, forks = fo, open_issues = oi, language = la\<rparr>]\<rparr>)"
| "run_statement (UpdateActivity ow rp d c au) s =
     (length (filter (\<lambda>r. a_owner r = ow \<and> a_repo r = rp \<and> a_date r = d) (activity s)),
      s\<lparr>activity := map (\<lambda>r. if a_owner r = ow \<and> a_repo r = rp \<and> a_date r = d
                               then r\<lparr>a_commits := c, a_authors := au\<rparr> else r) (activity s)\<rparr>)"
| "run_statement (InsertActivity ow rp d c au) s =
     (1, s\<lparr>activity := activity s @
            [\<lparr>a_owner = ow, a_repo = rp, a_date = d, a_commits = c, a_authors = au\<rparr>]\<rparr>)"
| "run_statement SelectTop100 s = (length (top100 s), s)"
| "run_statement (SelectActivity ow rp since until) s =
     (length (filter (\<lambda>r. a_owner r = ow \<and> a_repo r = rp \<and> since \<le> a_date r \<and> a_date r \<le> until)
        (activity s)), s)"

text \<open>
  \<^verbatim>\<open>connection.execute\<close>: the statement is recorded; at a faulty position the database
  raises and the tables stay as they were, otherwise the statement runs and the number of
  rows it touched comes back (the \<^verbatim>\<open>"UPDATE n"\<close> status of the driver).
\<close>

definition execute :: "statement \<Rightarrow> store \<Rightarrow> (error + nat) \<times> store" where
  "execute stmt s =
     (let s1 = s\<lparr>calls := calls s @ [stmt]\<rparr>
      in if length (calls s) \<in> faults s then (Inl PostgresError, s1)
         else (case run_statement stmt s1 of (n, s2) \<Rightarrow> (Inr n, s2)))"

section \<open>crud.py\<close>

definition upsert_top_100_repo :: "top_repo \<Rightarrow> store \<Rightarrow> (error + unit) \<times> store" where
  "upsert_top_100_repo repo_data s =
     (case execute (UpdateTop100 (repo repo_data) (position_cur repo_data) (stars repo_data)
                      (watchers repo_data) (forks repo_data) (open_issues repo_data)
                      (language repo_data)) s of
        (Inl e, s1) \<Rightarrow> (Inl RuntimeError, s1)
      | (Inr update_result, s1) \<Rightarrow>
          if update_result = 0
          then (case execute (InsertTop100 (repo repo_data) (owner repo_data)
                                (position_cur repo_data) (position_prev repo_data)
                                (stars repo_data) (watchers repo_data) (forks repo_data)
                                (open_issues repo_data) (language repo_data)) s1 of
                  (Inl e, s2) \<Rightarrow> (Inl RuntimeError, s2)
                | (Inr n, s2) \<Rightarrow> (Inr (), s2))
          else (Inr (), s1))"

definition upsert_repo_activity ::
  "string \<Rightarrow> string \<Rightarrow> date \<Rightarrow> int \<Rightarrow> string option set \<Rightarrow> store \<Rightarrow> (error + unit) \<times> store" where
  "upsert_repo_activity ow rp d c au s =
     (case execute (UpdateActivity ow rp d c au) s of
        (Inl e, s1) \<Rightarrow> (Inl RuntimeError, s1)
      | (Inr update_result, s1) \<Rightarrow>
          if update_result = 0
          then (case execute (InsertActivity ow rp d c au) s1 of
                  (Inl e, s2) \<Rightarrow> (Inl RuntimeError, s2)
                | (Inr n, s2) \<Rightarrow> (Inr (), s2))
          else (Inr (), s1))"

text \<open>
  \<^verbatim>\<open>fetch_repo_activity\<close>: the rows of one repository within the two dates, ordered by
  date. Building a \<^verbatim>\<open>RepoActivity\<close> from a row refuses an author that is not a string.
\<close>

definition fetch_repo_activity ::
  "string \<Rightarrow> string \<Rightarrow> date \<Rightarrow> date \<Rightarrow> store \<Rightarrow> (error + activity_row list) \<times> store" where
  "fetch_repo_activity ow rp since until s =
     (case execute (SelectActivity ow rp since until) s of
        (Inl e, s1) \<Rightarrow> (Inl RuntimeError, s1)
      | (Inr n, s1) \<Rightarrow>
          (let rows = sort_key a_date
                 (filter (\<lambda>r. a_owner r = ow \<and> a_repo r = rp \<and> since \<le> a_date r \<and> a_date r \<le> until)
                    (activity s1))
           in if \<exists>r \<in> set rows. None \<in> a_authors r then (Inl ValidationError, s1)
              else (Inr rows, s1)))"

section \<open>github_parser.py: the ranking\<close>

text \<open>
  What \<^verbatim>\<open>api.search.repos\<close> returns, as far as the code reads it. A key that is not in
  the object is \<open>None\<close>; a key that is there holds a value of the provider's type. The
  language is \<^verbatim>\<open>null\<close> for a repository without a primary language, so it is a
  \<open>field\<close>.
\<close>

record gh_owner =
  login :: "string option"

record gh_repo =
  full_name :: "string option"
  owner_obj :: "gh_owner option"
  stargazers_count :: "int option"
  watchers_count :: "int option"
  forks_count :: "int option"
  open_issues_count :: "int option"
  language_field :: "string field"

record search_result =
  items :: "gh_repo list option"

text \<open>
  The dictionary built for one item. Python evaluates the entries from top to bottom, so
  the first key that is missing decides the \<open>KeyError\<close>.
\<close>

definition repo_data_of :: "int \<Rightarrow> gh_repo \<Rightarrow> error + top_repo" where
  "repo_data_of num r =
     (case full_name r of None \<Rightarrow> Inl (KeyError ''full_name'') | Some fn \<Rightarrow>
      case owner_obj r of None \<Rightarrow> Inl (KeyError ''owner'') | Some ow \<Rightarrow>
      case login ow of None \<Rightarrow> Inl (KeyError ''login'') | Some lg \<Rightarrow>
      case stargazers_count r of None \<Rightarrow> Inl (KeyError ''stargazers_count'') | Some st \<Rightarrow>
      case watchers_count r of None \<Rightarrow> Inl (KeyError ''watchers_count'') | Some wa \<Rightarrow>
      case forks_count r of None \<Rightarrow> Inl (KeyError ''forks_count'') | Some fo \<Rightarrow>
      case open_issues_count r of None \<Rightarrow> Inl (KeyError ''open_issues_count'') | Some oi \<Rightarrow>
      case language_field r of
        Absent \<Rightarrow> Inl (KeyError ''language'')
      | Null \<Rightarrow> Inr \<lparr>repo = fn, owner = lg, position_cur = num, position_prev = None, stars = st,
                     watchers = wa, forks = fo, open_issues = oi, language = None\<rparr>
      | Val la \<Rightarrow> Inr \<lparr>repo = fn, owner = lg, position_cur = num, position_prev = None, stars = st,
                       watchers = wa, forks = fo, open_issues = oi, language = Some la\<rparr>)"

text \<open>The loop over \<^verbatim>\<open>enumerate(result['items'], start=1)\<close>.\<close>

fun enumerate_items :: "int \<Rightarrow> gh_repo list \<Rightarrow> error + top_repo list" where
  "enumerate_items num [] = Inr []"
| "enumerate_items num (r # rs) =
     (case repo_data_of num r of
        Inl e \<Rightarrow> Inl e
      | Inr repo_data \<Rightarrow>
          (case enumerate_items (num + 1) rs of
             Inl e \<Rightarrow> Inl e
           | Inr repos \<Rightarrow> Inr (repo_data # repos)))"

text \<open>
  \<^verbatim>\<open>fetch_top100_repos\<close>; its argument is what the search request gives: the exception
  the client raised, or the payload.
\<close>

definition fetch_top100_repos :: "error + search_result \<Rightarrow> error + top_repo list" where
  "fetch_top100_repos reply =
     (case reply of
        Inl e \<Rightarrow> Inl e
      | Inr result \<Rightarrow>
          (case items result of
             None \<Rightarrow> Inr []
           | Some its \<Rightarrow> enumerate_items 1 its))"

text \<open>The loop of \<^verbatim>\<open>update_top100_in_db\<close>: the first upsert that raises ends it.\<close>

fun upsert_repos :: "top_repo list \<Rightarrow> store \<Rightarrow> (error + unit) \<times> store" where
  "upsert_repos [] s = (Inr (), s)"
| "upsert_repos (repo_data # repos) s =
     (case upsert_top_100_repo repo_data s of
        (Inl e, s1) \<Rightarrow> (Inl e, s1)
      | (Inr u, s1) \<Rightarrow> upsert_repos repos s1)"

text \<open>
  \<^verbatim>\<open>update_top100_in_db\<close>. The \<^verbatim>\<open>DELETE\<close> is sent directly, not through
  \<^verbatim>\<open>crud.py\<close>, so its \<open>PostgresError\<close> is not wrapped.
\<close>

definition update_top100_in_db :: "error + search_result \<Rightarrow> store \<Rightarrow> (error + unit) \<times> store" where
  "update_top100_in_db reply s =
     (case fetch_top100_repos reply of
        Inl e \<Rightarrow> (Inl e, s)
      | Inr repos \<Rightarrow>
          (let new_repos = set (map repo repos)
           in case execute (DeleteTop100NotIn new_repos) s of
                (Inl e, s1) \<Rightarrow> (Inl e, s1)
              | (Inr n, s1) \<Rightarrow> upsert_repos repos s1))"

section \<open>github_parser.py: the commits\<close>

text \<open>A commit as \<^verbatim>\<open>list_commits\<close> returns it, as far as the code reads it.\<close>

record git_user =
  name :: "string field"
  date :: "string field"

record commit_obj =
  author :: "git_user field"

record api_commit =
  commit :: "commit_obj field"

text \<open>
  The commit provider: owner, repository, since, until, page size and page give the page,
  or the exception the client raised.
\<close>

type_synonym commit_api =
  "string \<Rightarrow> string \<Rightarrow> string \<Rightarrow> string \<Rightarrow> nat \<Rightarrow> nat \<Rightarrow> error + api_commit list"

text \<open>
  The \<^verbatim>\<open>while True\<close> loop of \<^verbatim>\<open>fetch_commits\<close>. It has no bound of its own: a
  provider whose pages are always full keeps it running, and then the value is \<open>None\<close>.
  Beside the commits it gives the pages it asked for, in order.
\<close>

partial_function (option) fetch_pages ::
  "(nat \<Rightarrow> error + api_commit list) \<Rightarrow> nat \<Rightarrow> nat \<Rightarrow> api_commit list \<Rightarrow> nat list
     \<Rightarrow> ((error + api_commit list) \<times> nat list) option" where
  "fetch_pages list_commits per_page page commits asked =
     (case list_commits page of
        Inl e \<Rightarrow> Some (Inl e, asked @ [page])
      | Inr result \<Rightarrow>
          if result = [] then Some (Inr commits, asked @ [page])
          else if length result < per_page then Some (Inr (commits @ result), asked @ [page])
          else fetch_pages list_commits per_page (page + 1) (commits @ result) (asked @ [page]))"

declare fetch_pages.simps [code]

text \<open>The line \<^verbatim>\<open>fetch_commits\<close> prints when it catches an exception.\<close>

datatype printed_line = FetchFailed string string error

record fetch_result =
  fetched :: "api_commit list"
  printed :: "printed_line list"
  requests :: "nat list"

definition fetch_commits ::
  "commit_api \<Rightarrow> string \<Rightarrow> string \<Rightarrow> string \<Rightarrow> string \<Rightarrow> fetch_result option" where
  "fetch_commits api ow rp since until =
     (case fetch_pages (\<lambda>page. api ow rp since until 100 page) 100 1 [] [] of
        None \<Rightarrow> None
      | Some (Inl e, asked) \<Rightarrow>
          Some \<lparr>fetched = [], printed = [FetchFailed ow rp e], requests = asked\<rparr>
      | Some (Inr commits, asked) \<Rightarrow>
          Some \<lparr>fetched = commits, printed = [], requests = asked\<rparr>)"

text \<open>\<^verbatim>\<open>commit_date_str.replace('Z', '+00:00')\<close>: every \<open>Z\<close> is replaced.\<close>

definition replace_Z :: "string \<Rightarrow> string" where
  "replace_Z s = concat (map (\<lambda>c. if c = CHR ''Z'' then ''+00:00'' else [c]) s)"

record day_stats =
  commits :: int
  authors :: "string option set"

text \<open>
  The last lines of the loop body of \<^verbatim>\<open>aggregate_commits_by_day\<close>: a day that is not
  yet a key starts at no commits and no authors, then the commit is counted and its author
  added. The dictionary is an association list in insertion order.
\<close>

definition count_commit ::
  "date \<Rightarrow> string option \<Rightarrow> (date \<times> day_stats) list \<Rightarrow> (date \<times> day_stats) list" where
  "count_commit day author_name daily_stats =
     (let entry = (case map_of daily_stats day of
                     None \<Rightarrow> \<lparr>commits = 0, authors = {}\<rparr>
                   | Some e \<Rightarrow> e)
      in AList.update day
           \<lparr>commits = commits entry + 1, authors = insert author_name (authors entry)\<rparr>
           daily_stats)"

text \<open>
  One round of the loop. \<open>day_of\<close> stands for the library's
  \<^verbatim>\<open>datetime.fromisoformat(...).date()\<close>, \<open>None\<close> when it raises; the day's ISO string
  and the date it is parsed back to in \<^verbatim>\<open>update_activity_in_db\<close> name the same day,
  so the date itself is the key. The date is read before the author is tested, hence an
  author that is \<^verbatim>\<open>null\<close> raises; once the date has been read the author is a
  non-empty object, and the test is whether it has the key \<^verbatim>\<open>name\<close>.
\<close>

definition aggregate_step ::
  "(string \<Rightarrow> date option) \<Rightarrow> api_commit \<Rightarrow> (date \<times> day_stats) list
     \<Rightarrow> error + (date \<times> day_stats) list" where
  "aggregate_step day_of c daily_stats =
     (case commit c of Absent \<Rightarrow> Inl (KeyError ''commit'') | Null \<Rightarrow> Inl TypeError | Val co \<Rightarrow>
      case author co of Absent \<Rightarrow> Inl (KeyError ''author'') | Null \<Rightarrow> Inl TypeError | Val u \<Rightarrow>
      case date u of Absent \<Rightarrow> Inl (KeyError ''date'') | Null \<Rightarrow> Inl AttributeError
      | Val commit_date_str \<Rightarrow>
      case day_of (replace_Z commit_date_str) of None \<Rightarrow> Inl ValueError | Some day \<Rightarrow>
        (let author_name = (case name u of Absent \<Rightarrow> Some ''Unknown'' | Null \<Rightarrow> None
                            | Val n \<Rightarrow> Some n)
         in Inr (count_commit day author_name daily_stats)))"

fun aggregate_loop ::
  "(string \<Rightarrow> date option) \<Rightarrow> api_commit list \<Rightarrow> (date \<times> day_stats) list
     \<Rightarrow> error + (date \<times> day_stats) list" where
  "aggregate_loop day_of [] daily_stats = Inr daily_stats"
| "aggregate_loop day_of (c # cs) daily_stats =
     (case aggregate_step day_of c daily_stats of
        Inl e \<Rightarrow> Inl e
      | Inr daily_stats1 \<Rightarrow> aggregate_loop day_of cs daily_stats1)"

definition aggregate_commits_by_day ::
  "(string \<Rightarrow> date option) \<Rightarrow> api_commit list \<Rightarrow> error + (date \<times> day_stats) list" where
  "aggregate_commits_by_day day_of cs = aggregate_loop day_of cs []"

text \<open>The loop of \<^verbatim>\<open>update_activity_in_db\<close> over \<^verbatim>\<open>daily_stats.items()\<close>.\<close>

fun upsert_days ::
  "string \<Rightarrow> string \<Rightarrow> (date \<times> day_stats) list \<Rightarrow> store \<Rightarrow> (error + unit) \<times> store" where
  "upsert_days ow rp [] s = (Inr (), s)"
| "upsert_days ow rp ((d, stats) # rest) s =
     (case upsert_repo_activity ow rp d (commits stats) (authors stats) s of
        (Inl e, s1) \<Rightarrow> (Inl e, s1)
      | (Inr u, s1) \<Rightarrow> upsert_days ow rp rest s1)"

definition update_activity_in_db ::
  "(string \<Rightarrow> date option) \<Rightarrow> commit_api \<Rightarrow> string \<Rightarrow> string \<Rightarrow> string \<Rightarrow> string \<Rightarrow> store
     \<Rightarrow> ((error + unit) \<times> store) option" where
  "update_activity_in_db day_of api ow rp since until s =
     (case fetch_commits api ow rp since until of
        None \<Rightarrow> None
      | Some fr \<Rightarrow>
          (case aggregate_commits_by_day day_of (fetched fr) of
             Inl e \<Rightarrow> Some (Inl e, s)
           | Inr daily_stats \<Rightarrow> Some (upsert_days ow rp daily_stats s)))"

section \<open>update_data.py\<close>

text \<open>
  \<^verbatim>\<open>full_name.split("/", 1)\<close> unpacked into two names: the part after the first slash,
  and a \<open>ValueError\<close> when there is no slash.
\<close>

fun after_slash :: "string \<Rightarrow> string option" where
  "after_slash [] = None"
| "after_slash (c # cs) = (if c = CHR ''/'' then Some cs else after_slash cs)"

text \<open>The loop of \<^verbatim>\<open>refresh_data\<close> over the rows read from \<^verbatim>\<open>top100\<close>.\<close>

fun sync_records ::
  "(string \<Rightarrow> date option) \<Rightarrow> commit_api \<Rightarrow> string \<Rightarrow> string \<Rightarrow> (string \<times> string) list \<Rightarrow> store
     \<Rightarrow> ((error + unit) \<times> store) option" where
  "sync_records day_of api since until [] s = Some (Inr (), s)"
| "sync_records day_of api since until ((ow, fn) # records) s =
     (case after_slash fn of
        None \<Rightarrow> Some (Inl ValueError, s)
      | Some repo_name \<Rightarrow>
          (case update_activity_in_db day_of api ow repo_name since until s of
             None \<Rightarrow> None
           | Some (Inl e, s1) \<Rightarrow> Some (Inl e, s1)
           | Some (Inr u, s1) \<Rightarrow> sync_records day_of api since until records s1))"


section \<open>routers.py\<close>

datatype detail = SinceAfterUntil | NoActivity | DatabaseError | ServerError

datatype http_exception = HTTPException nat detail

text \<open>
  \<^verbatim>\<open>get_repo_activity\<close>. The 404 is raised inside the \<^verbatim>\<open>try\<close>, where the handler for
  \<^verbatim>\<open>Exception\<close> catches it and raises a 500 in its place.
\<close>

definition get_repo_activity ::
  "string \<Rightarrow> string \<Rightarrow> date \<Rightarrow> date \<Rightarrow> store \<Rightarrow> (http_exception + activity_row list) \<times> store" where
  "get_repo_activity ow rp since until s =
     (if since > until then (Inl (HTTPException 400 SinceAfterUntil), s)
      else (case fetch_repo_activity ow rp since until s of
              (Inl e, s1) \<Rightarrow>
                (if e = RuntimeError then (Inl (HTTPException 500 DatabaseError), s1)
                 else (Inl (HTTPException 500 ServerError), s1))
            | (Inr data, s1) \<Rightarrow>
                (if data = [] then (Inl (HTTPException 500 ServerError), s1)
                 else (Inr data, s1))))"

section \<open>Notions used in the properties\<close>

text \<open>The sum of the commit counts over the day buckets.\<close>

definition total_commits :: "(date \<times> day_stats) list \<Rightarrow> int" where
  "total_commits daily_stats = sum_list (map (\<lambda>(d, stats). commits stats) daily_stats)"

text \<open>
  A commit the aggregator can read: the commit object, its author and the author's date
  are there, and the date parses.
\<close>

definition well_formed :: "(string \<Rightarrow> date option) \<Rightarrow> api_commit \<Rightarrow> bool" where
  "well_formed day_of c =
     (case commit c of
        Val co \<Rightarrow>
          (case author co of
             Val u \<Rightarrow> (case date u of Val s \<Rightarrow> day_of (replace_Z s) \<noteq> None | _ \<Rightarrow> False)
           | _ \<Rightarrow> False)
      | _ \<Rightarrow> False)"

text \<open>Every day bucket has at least one commit and at least one author.\<close>

definition daily_ok :: "(date \<times> day_stats) list \<Rightarrow> bool" where
  "daily_ok ds = (\<forall>(d, stats) \<in> set ds. 1 \<le> commits stats \<and> authors stats \<noteq> {})"

text \<open>A statement that writes an activity row with at least one commit and one author.\<close>

definition activity_write_ok :: "statement \<Rightarrow> bool" where
  "activity_write_ok stmt =
     (case stmt of
        UpdateActivity ow rp d c au \<Rightarrow> 1 \<le> c \<and> au \<noteq> {}
      | InsertActivity ow rp d c au \<Rightarrow> 1 \<le> c \<and> au \<noteq> {}
      | _ \<Rightarrow> False)"

text \<open>
  What the \<^verbatim>\<open>UPDATE\<close> of \<^verbatim>\<open>upsert_top_100_repo\<close> makes of a row it matches, and
  what a successful upsert makes of the table.
\<close>

definition shift_row :: "top_repo \<Rightarrow> top_repo \<Rightarrow> top_repo" where
  "shift_row repo_data r =
     r\<lparr>position_prev := Some (position_cur r), position_cur := position_cur repo_data,
       stars := stars repo_data, watchers := watchers repo_data, forks := forks repo_data,
       open_issues := open_issues repo_data, language := language repo_data\<rparr>"

definition upsert_rows :: "top_repo \<Rightarrow> top_repo list \<Rightarrow> top_repo list" where
  "upsert_rows repo_data rows =
     (if filter (\<lambda>r. repo r = repo repo_data) rows = [] then rows @ [repo_data]
      else map (\<lambda>r. if repo r = repo repo_data then shift_row repo_data r else r) rows)"

text \<open>A statement of an upsert into \<^verbatim>\<open>top100\<close>.\<close>

definition top100_upsert :: "statement \<Rightarrow> bool" where
  "top100_upsert stmt =
     (case stmt of
        UpdateTop100 rp pc st wa fo oi la \<Rightarrow> True
      | InsertTop100 rp ow pc pp st wa fo oi la \<Rightarrow> True
      | _ \<Rightarrow> False)"



section \<open>Sample inputs\<close>

text \<open>The day of the two timestamps used in the examples, as the library computes it.\<close>

definition sample_day_of :: "string \<Rightarrow> date option" where
  "sample_day_of s =
     (if take 10 s = ''2024-01-01'' then Some (2024, 1, 1)
      else if take 10 s = ''2024-01-02'' then Some (2024, 1, 2)
      else None)"

definition commit_of :: "string field \<Rightarrow> string \<Rightarrow> api_commit" where
  "commit_of n d = \<lparr>commit = Val \<lparr>author = Val \<lparr>name = n, date = Val d\<rparr>\<rparr>\<rparr>"

text \<open>A provider with three full pages of commits and nothing after them.\<close>

definition page_api :: commit_api where
  "page_api ow rp since until per_page page =
     (if page \<le> 3 then Inr (replicate 100 \<lparr>commit = Null\<rparr>) else Inr [])"

definition empty_store :: store where
  "empty_store = \<lparr>top100 = [], activity = [], calls = [], faults = {}\<rparr>"

text \<open>Search payloads, and a store as an earlier cycle left it.\<close>

definition item_of :: "string \<Rightarrow> string \<Rightarrow> int \<Rightarrow> string field \<Rightarrow> gh_repo" where
  "item_of fn lg st la =
     \<lparr>full_name = Some fn, owner_obj = Some \<lparr>login = Some lg\<rparr>, stargazers_count = Some st,
      watchers_count = Some st, forks_count = Some 3, open_issues_count = Some 2,
      language_field = la\<rparr>"

definition sample_reply :: "error + search_result" where
  "sample_reply =
     Inr \<lparr>items = Some [item_of ''a/x'' ''a'' 90 (Val ''C''), item_of ''b/y'' ''b'' 70 Null]\<rparr>"

definition dup_reply :: "error + search_result" where
  "dup_reply =
     Inr \<lparr>items = Some [item_of ''a/x'' ''a'' 90 Null, item_of ''a/x'' ''a'' 90 Null]\<rparr>"

definition row_of :: "string \<Rightarrow> string \<Rightarrow> int \<Rightarrow> top_repo" where
  "row_of fn ow pos =
     \<lparr>repo = fn, owner = ow, position_cur = pos, position_prev = None, stars = 50, watchers = 50,
      forks = 1, open_issues = 1, language = None\<rparr>"

definition prior_store :: store where
  "prior_store = \<lparr>top100 = [row_of ''c/z'' ''c'' 1, row_of ''a/x'' ''a'' 5], activity = [],
                   calls = [], faults = {}\<rparr>"

text \<open>
  A provider with two commits on two days, the first without an author name, and one
  whose first page is full and whose second request fails.
\<close>

definition two_day_api :: commit_api where
  "two_day_api ow rp since until per_page page =
     (if page = 1
      then Inr [commit_of Absent ''2024-01-01T10:00:00Z'',
                commit_of (Val ''Alice'') ''2024-01-02T09:30:00Z'']
      else Inr [])"

definition flaky_api :: commit_api where
  "flaky_api ow rp since until per_page page =
     (if page = 1 then Inr (replicate 100 (commit_of Absent ''2024-01-01T10:00:00Z''))
      else Inl HTTPError)"

section \<open>The store and the upserts\<close>

lemma execute_ok:
  "execute stmt s = (Inr n, s') \<Longrightarrow>
     (n, s') = run_statement stmt (s\<lparr>calls := calls s @ [stmt]\<rparr>)"
  by (auto simp: execute_def Let_def split: if_splits prod.splits)

lemma execute_calls: "execute stmt s = (r, s') \<Longrightarrow> calls s' = calls s @ [stmt]"
  by (cases stmt) (auto simp: execute_def Let_def split: if_splits)

lemma upsert_top_100_repo_ok:
  assumes "upsert_top_100_repo repo_data s = (Inr u, s')"
  shows "top100 s' = upsert_rows repo_data (top100 s)"
    and "\<exists>new. calls s' = calls s @ new \<and> list_all top100_upsert new"
proof -
  let ?upd = "UpdateTop100 (repo repo_data) (position_cur repo_data) (stars repo_data)
                (watchers repo_data) (forks repo_data) (open_issues repo_data) (language repo_data)"
  let ?ins = "InsertTop100 (repo repo_data) (owner repo_data) (position_cur repo_data)
                (position_prev repo_data) (stars repo_data) (watchers repo_data) (forks repo_data)
                (open_issues repo_data) (language repo_data)"
  obtain r1 s1 where 1: "execute ?upd s = (r1, s1)" by (cases "execute ?upd s")
  with assms obtain n where n: "r1 = Inr n"
    by (cases r1) (auto simp: upsert_top_100_repo_def)
  note ok1 = execute_ok [OF 1 [unfolded n]] and c1 = execute_calls [OF 1]
  have t1: "top100 s1 = map (\<lambda>r. if repo r = repo repo_data then shift_row repo_data r else r) (top100 s)"
    and n1: "n = length (filter (\<lambda>r. repo r = repo repo_data) (top100 s))"
    using ok1 by (auto simp: shift_row_def)
  show "top100 s' = upsert_rows repo_data (top100 s)"
    and "\<exists>new. calls s' = calls s @ new \<and> list_all top100_upsert new"
  proof (atomize (full), cases "n = 0")
    case True
    obtain r2 s2 where 2: "execute ?ins s1 = (r2, s2)" by (cases "execute ?ins s1")
    with assms 1 n True obtain m where m: "r2 = Inr m" and s': "s' = s2"
      by (cases r2) (auto simp: upsert_top_100_repo_def)
    note ok2 = execute_ok [OF 2 [unfolded m]] and c2 = execute_calls [OF 2]
    from True n1 have e: "filter (\<lambda>r. repo r = repo repo_data) (top100 s) = []" by simp
    then have "top100 s1 = top100 s"
      unfolding t1 by (auto simp: filter_empty_conv intro: map_idI)
    then have "top100 s2 = top100 s @ [repo_data]" using ok2 by auto
    then show "top100 s' = upsert_rows repo_data (top100 s)
        \<and> (\<exists>new. calls s' = calls s @ new \<and> list_all top100_upsert new)"
      using e s' c1 c2 by (simp add: upsert_rows_def top100_upsert_def)
  next
    case False
    with assms 1 n have s': "s' = s1" by (auto simp: upsert_top_100_repo_def)
    from False n1 have "filter (\<lambda>r. repo r = repo repo_data) (top100 s) \<noteq> []" by auto
    then show "top100 s' = upsert_rows repo_data (top100 s)
        \<and> (\<exists>new. calls s' = calls s @ new \<and> list_all top100_upsert new)"
      using s' t1 c1 by (simp add: upsert_rows_def top100_upsert_def)
  qed
qed

lemma upsert_repos_ok:
  "upsert_repos repos s = (Inr u, s') \<Longrightarrow>
     top100 s' = foldl (\<lambda>rows repo_data. upsert_rows repo_data rows) (top100 s) repos
     \<and> (\<exists>new. calls s' = calls s @ new \<and> list_all top100_upsert new)"
proof (induction repos arbitrary: s)
  case Nil
  then show ?case by simp
next
  case (Cons repo_data repos)
  obtain r1 s1 where 1: "upsert_top_100_repo repo_data s = (r1, s1)"
    by (cases "upsert_top_100_repo repo_data s")
  with Cons.prems obtain u1 where u1: "r1 = Inr u1" by (cases r1) auto
  with Cons.prems 1 have 2: "upsert_repos repos s1 = (Inr u, s')" by simp
  from upsert_top_100_repo_ok [OF 1 [unfolded u1]] Cons.IH [OF 2]
  show ?case by auto
qed

lemma repo_shift_row [simp]: "repo (shift_row repo_data r) = repo r"
  by (simp add: shift_row_def)

lemma map_repo_upsert_rows:
  "map repo (upsert_rows repo_data rows) =
     (if filter (\<lambda>r. repo r = repo repo_data) rows = [] then map repo rows @ [repo repo_data]
      else map repo rows)"
  by (simp add: upsert_rows_def comp_def if_distrib [of repo] cong: if_cong)

lemma repo_upsert_rows:
  "repo ` set (upsert_rows repo_data rows) = insert (repo repo_data) (repo ` set rows)"
proof -
  have "repo ` set (upsert_rows repo_data rows) = set (map repo (upsert_rows repo_data rows))"
    by simp
  also have "\<dots> = insert (repo repo_data) (repo ` set rows)"
    unfolding map_repo_upsert_rows by (auto simp: filter_empty_conv) (metis imageI)
  finally show ?thesis .
qed

lemma repo_foldl_upsert_rows:
  "repo ` set (foldl (\<lambda>rows repo_data. upsert_rows repo_data rows) rows repos)
     = repo ` set rows \<union> repo ` set repos"
  by (induction repos arbitrary: rows) (auto simp: repo_upsert_rows)

lemma filter_upsert_rows_other:
  assumes "repo repo_data \<noteq> n"
  shows "filter (\<lambda>r. repo r = n) (upsert_rows repo_data rows) = filter (\<lambda>r. repo r = n) rows"
proof -
  have "filter (\<lambda>r. repo r = n)
          (map (\<lambda>r. if repo r = repo repo_data then shift_row repo_data r else r) rows)
        = filter (\<lambda>r. repo r = n) rows"
    using assms by (induction rows) auto
  with assms show ?thesis by (simp add: upsert_rows_def)
qed

lemma filter_upsert_rows_same:
  "filter (\<lambda>r. repo r = repo repo_data) (upsert_rows repo_data rows) =
     (if filter (\<lambda>r. repo r = repo repo_data) rows = [] then [repo_data]
      else map (shift_row repo_data) (filter (\<lambda>r. repo r = repo repo_data) rows))"
proof (cases "filter (\<lambda>r. repo r = repo repo_data) rows = []")
  case True
  then show ?thesis by (simp add: upsert_rows_def)
next
  case False
  have "filter (\<lambda>r. repo r = n) (map (\<lambda>r. if repo r = n then shift_row repo_data r else r) rows)
        = map (shift_row repo_data) (filter (\<lambda>r. repo r = n) rows)" for n
    by (induction rows) auto
  with False show ?thesis by (simp add: upsert_rows_def)
qed

lemma filter_foldl_upsert_rows_other:
  "n \<notin> repo ` set repos \<Longrightarrow>
     filter (\<lambda>r. repo r = n) (foldl (\<lambda>rows repo_data. upsert_rows repo_data rows) rows repos)
       = filter (\<lambda>r. repo r = n) rows"
  by (induction repos arbitrary: rows) (auto simp: filter_upsert_rows_other)

lemma filter_foldl_upsert_rows_once:
  assumes "repo x \<notin> repo ` set before" "repo x \<notin> repo ` set after"
  shows "filter (\<lambda>r. repo r = repo x)
           (foldl (\<lambda>rows repo_data. upsert_rows repo_data rows) rows (before @ x # after))
         = (if filter (\<lambda>r. repo r = repo x) rows = [] then [x]
            else map (shift_row x) (filter (\<lambda>r. repo r = repo x) rows))"
  using assms
  by (simp add: filter_foldl_upsert_rows_other filter_upsert_rows_same)

lemma once_split:
  assumes "x \<in> set repos" "length (filter (\<lambda>y. repo y = repo x) repos) = 1"
  shows "\<exists>before after. repos = before @ x # after
           \<and> repo x \<notin> repo ` set before \<and> repo x \<notin> repo ` set after"
proof -
  from assms(1) obtain before after where sp: "repos = before @ x # after"
    by (auto dest: split_list)
  with assms(2) have "filter (\<lambda>y. repo y = repo x) before = []"
    "filter (\<lambda>y. repo y = repo x) after = []"
    by auto
  then have "repo x \<notin> repo ` set before" "repo x \<notin> repo ` set after"
    by (auto simp: filter_empty_conv)
  with sp show ?thesis by blast
qed

lemma upsert_repo_activity_calls:
  assumes "upsert_repo_activity ow rp d c au s = (r, s')"
  shows "\<exists>new. calls s' = calls s @ new
           \<and> set new \<subseteq> {UpdateActivity ow rp d c au, InsertActivity ow rp d c au}"
proof -
  obtain r1 s1 where 1: "execute (UpdateActivity ow rp d c au) s = (r1, s1)"
    by (cases "execute (UpdateActivity ow rp d c au) s")
  obtain r2 s2 where 2: "execute (InsertActivity ow rp d c au) s1 = (r2, s2)"
    by (cases "execute (InsertActivity ow rp d c au) s1")
  note c1 = execute_calls [OF 1] and c2 = execute_calls [OF 2]
  from assms 1 2 have "s' = s1 \<or> s' = s2"
    by (auto simp: upsert_repo_activity_def split: sum.splits if_splits)
  then show ?thesis using c1 c2 by auto
qed

section \<open>The ranking as fetched\<close>

lemma repo_data_of_prev: "repo_data_of num r = Inr repo_data \<Longrightarrow> position_prev repo_data = None"
  by (auto simp: repo_data_of_def split: option.splits field.splits)

lemma enumerate_items_prev:
  "enumerate_items num its = Inr repos \<Longrightarrow> x \<in> set repos \<Longrightarrow> position_prev x = None"
proof (induction its arbitrary: num repos)
  case Nil
  then show ?case by simp
next
  case (Cons r rs)
  then show ?case
    by (auto split: sum.splits dest: repo_data_of_prev)
qed

lemma fetch_top100_repos_prev:
  "fetch_top100_repos reply = Inr repos \<Longrightarrow> x \<in> set repos \<Longrightarrow> position_prev x = None"
  by (auto simp: fetch_top100_repos_def split: sum.splits option.splits
      dest: enumerate_items_prev)







section \<open>The page loop\<close>

lemma fetch_pages_fail:
  assumes "list_commits p = Inl e" "page \<le> p" "0 < per_page"
      "\<forall>q. page \<le> q \<and> q < p \<longrightarrow> (\<exists>cs. list_commits q = Inr cs \<and> per_page \<le> length cs)"
  shows "fetch_pages list_commits per_page page acc asked = Some (Inl e, asked @ [page..<Suc p])"
  using assms
proof (induction "p - page" arbitrary: page acc asked)
  case 0
  then have "page = p" by simp
  with 0 show ?case by (subst fetch_pages.simps) simp
next
  case (Suc n)
  then have lt: "page < p" by simp
  with Suc.prems obtain cs where cs: "list_commits page = Inr cs" "per_page \<le> length cs"
    by auto
  with Suc.prems have ne: "cs \<noteq> []" by auto
  have "fetch_pages list_commits per_page (page + 1) (acc @ cs) (asked @ [page])
        = Some (Inl e, (asked @ [page]) @ [page + 1..<Suc p])"
    using Suc.hyps(2) Suc.prems lt by (intro Suc.hyps(1)) auto
  moreover have "[page..<Suc p] = page # [page + 1..<Suc p]"
    using lt by (simp add: upt_conv_Cons)
  ultimately show ?case
    using cs ne by (subst fetch_pages.simps) simp
qed

lemma fetch_commits_fail:
  assumes "api ow rp since until 100 p = Inl e" "1 \<le> p"
      "\<forall>q. 1 \<le> q \<and> q < p \<longrightarrow> (\<exists>cs. api ow rp since until 100 q = Inr cs \<and> 100 \<le> length cs)"
  shows "fetch_commits api ow rp since until
         = Some \<lparr>fetched = [], printed = [FetchFailed ow rp e], requests = [1..<Suc p]\<rparr>"
proof -
  have "fetch_pages (\<lambda>page. api ow rp since until 100 page) 100 1 [] []
        = Some (Inl e, [] @ [1..<Suc p])"
    using assms by (intro fetch_pages_fail) auto
  then show ?thesis by (simp add: fetch_commits_def)
qed

section \<open>The aggregator\<close>

lemma total_commits_update:
  "total_commits (AList.update k v ds) =
     total_commits ds - (case map_of ds k of None \<Rightarrow> 0 | Some e \<Rightarrow> commits e) + commits v"
  by (induction ds) (auto simp: total_commits_def)

lemma aggregate_step_total:
  "aggregate_step day_of c ds = Inr ds' \<Longrightarrow> total_commits ds' = total_commits ds + 1"
  by (auto simp: aggregate_step_def count_commit_def total_commits_update Let_def
      split: field.splits option.splits)

lemma aggregate_loop_total:
  "aggregate_loop day_of cs ds = Inr ds' \<Longrightarrow> total_commits ds' = total_commits ds + int (length cs)"
proof (induction cs arbitrary: ds)
  case Nil
  then show ?case by simp
next
  case (Cons c cs)
  then obtain ds1 where 1: "aggregate_step day_of c ds = Inr ds1"
      and 2: "aggregate_loop day_of cs ds1 = Inr ds'"
    by (auto split: sum.splits)
  from Cons.IH [OF 2] aggregate_step_total [OF 1] show ?case by simp
qed

lemma aggregate_step_well_formed:
  "well_formed day_of c \<Longrightarrow> \<exists>ds'. aggregate_step day_of c ds = Inr ds'"
  by (auto simp: aggregate_step_def well_formed_def Let_def split: field.splits option.splits)

lemma aggregate_loop_well_formed:
  "\<forall>c \<in> set cs. well_formed day_of c \<Longrightarrow> \<exists>ds'. aggregate_loop day_of cs ds = Inr ds'"
proof (induction cs arbitrary: ds)
  case Nil
  then show ?case by simp
next
  case (Cons c cs)
  then obtain ds1 where "aggregate_step day_of c ds = Inr ds1"
    using aggregate_step_well_formed [of day_of c ds] by auto
  with Cons show ?case by simp
qed

lemma set_update_subset: "set (AList.update k v ds) \<subseteq> insert (k, v) (set ds)"
  by (induction ds) auto

lemma count_commit_ok:
  assumes "daily_ok ds"
  shows "daily_ok (count_commit day an ds)"
proof -
  define entry where "entry = (case map_of ds day of None \<Rightarrow> \<lparr>commits = 0, authors = {}\<rparr> | Some e \<Rightarrow> e)"
  have "0 \<le> commits entry"
  proof (cases "map_of ds day")
    case None
    then show ?thesis by (simp add: entry_def)
  next
    case (Some e)
    then have "(day, e) \<in> set ds" by (rule map_of_SomeD)
    with assms Some show ?thesis by (auto simp: daily_ok_def entry_def)
  qed
  moreover have "count_commit day an ds
      = AList.update day \<lparr>commits = commits entry + 1, authors = insert an (authors entry)\<rparr> ds"
    by (simp add: count_commit_def entry_def Let_def)
  ultimately show ?thesis
    using assms set_update_subset [of day _ ds] unfolding daily_ok_def by fastforce
qed

lemma aggregate_step_ok:
  assumes "aggregate_step day_of c ds = Inr ds'" "daily_ok ds"
  shows "daily_ok ds'"
proof -
  from assms(1) obtain day an where "ds' = count_commit day an ds"
    by (auto simp: aggregate_step_def Let_def split: field.splits option.splits)
  with assms(2) show ?thesis by (simp add: count_commit_ok)
qed

lemma aggregate_loop_ok:
  "aggregate_loop day_of cs ds = Inr ds' \<Longrightarrow> daily_ok ds \<Longrightarrow> daily_ok ds'"
proof (induction cs arbitrary: ds)
  case Nil
  then show ?case by simp
next
  case (Cons c cs)
  then obtain ds1 where 1: "aggregate_step day_of c ds = Inr ds1"
      and 2: "aggregate_loop day_of cs ds1 = Inr ds'"
    by (auto split: sum.splits)
  from Cons.IH [OF 2] aggregate_step_ok [OF 1 Cons.prems(2)] show ?case by simp
qed

lemma aggregate_commits_by_day_ok:
  "aggregate_commits_by_day day_of cs = Inr ds \<Longrightarrow> daily_ok ds"
  unfolding aggregate_commits_by_day_def
  by (erule aggregate_loop_ok) (simp add: daily_ok_def)

lemma upsert_days_calls:
  "upsert_days ow rp ds s = (r, s') \<Longrightarrow> daily_ok ds \<Longrightarrow>
     \<exists>new. calls s' = calls s @ new \<and> list_all activity_write_ok new"
proof (induction ds arbitrary: s)
  case Nil
  then show ?case by simp
next
  case (Cons p ds)
  obtain d stats where p: "p = (d, stats)" by (cases p)
  obtain r1 s1 where 1: "upsert_repo_activity ow rp d (commits stats) (authors stats) s = (r1, s1)"
    by (cases "upsert_repo_activity ow rp d (commits stats) (authors stats) s")
  from upsert_repo_activity_calls [OF 1] obtain new1 where
    n1: "calls s1 = calls s @ new1"
    "set new1 \<subseteq> {UpdateActivity ow rp d (commits stats) (authors stats),
                  InsertActivity ow rp d (commits stats) (authors stats)}"
    by blast
  from Cons.prems(2) p have ok: "1 \<le> commits stats" "authors stats \<noteq> {}" "daily_ok ds"
    by (auto simp: daily_ok_def)
  then have ok1: "list_all activity_write_ok new1"
    using n1(2) by (auto simp: list_all_iff activity_write_ok_def)
  show ?case
  proof (cases r1)
    case (Inl e)
    with Cons.prems(1) p 1 have "s' = s1" by simp
    with n1 ok1 show ?thesis by auto
  next
    case (Inr u)
    with Cons.prems(1) p 1 have "upsert_days ow rp ds s1 = (r, s')" by simp
    from Cons.IH [OF this ok(3)] obtain new where
      "calls s' = calls s1 @ new" "list_all activity_write_ok new" by blast
    with n1 ok1 show ?thesis by auto
  qed
qed

section \<open>The sample inputs, run\<close>

lemmas sample_defs = sample_reply_def dup_reply_def item_of_def row_of_def prior_store_def
  empty_store_def commit_of_def sample_day_of_def replace_Z_def execute_def Let_def

lemmas top100_defs = fetch_top100_repos_def repo_data_of_def update_top100_in_db_def
  upsert_top_100_repo_def

lemmas activity_defs = update_activity_in_db_def aggregate_commits_by_day_def aggregate_step_def
  count_commit_def upsert_repo_activity_def

lemma fetch_top100_repos_sample:
  "fetch_top100_repos sample_reply =
     Inr [\<lparr>repo = ''a/x'', owner = ''a'', position_cur = 1, position_prev = None, stars = 90,
            watchers = 90, forks = 3, open_issues = 2, language = Some ''C''\<rparr>,
          \<lparr>repo = ''b/y'', owner = ''b'', position_cur = 2, position_prev = None, stars = 70,
            watchers = 70, forks = 3, open_issues = 2, language = None\<rparr>]"
  by (simp add: sample_defs top100_defs)

lemma update_top100_in_db_sample:
  "update_top100_in_db sample_reply prior_store =
     (Inr (),
      \<lparr>top100 =
         [\<lparr>repo = ''a/x'', owner = ''a'', position_cur = 1, position_prev = Some 5, stars = 90,
            watchers = 90, forks = 3, open_issues = 2, language = Some ''C''\<rparr>,
          \<lparr>repo = ''b/y'', owner = ''b'', position_cur = 2, position_prev = None, stars = 70,
            watchers = 70, forks = 3, open_issues = 2, language = None\<rparr>],
       activity = [],
       calls =
         [DeleteTop100NotIn {''a/x'', ''b/y''},
          UpdateTop100 ''a/x'' 1 90 90 3 2 (Some ''C''),
          UpdateTop100 ''b/y'' 2 70 70 3 2 None,
          InsertTop100 ''b/y'' ''b'' 2 None 70 70 3 2 None],
       faults = {}\<rparr>)"
  by (simp add: sample_defs top100_defs insert_commute)

lemma calls_prior_store: "calls prior_store = []"
  by (simp add: prior_store_def)

lemma top100_prior_store: "top100 prior_store = [row_of ''c/z'' ''c'' 1, row_of ''a/x'' ''a'' 5]"
  by (simp add: prior_store_def)

lemma fetch_commits_two_day:
  "fetch_commits two_day_api ow rp since until =
     Some \<lparr>fetched = [commit_of Absent ''2024-01-01T10:00:00Z'',
                       commit_of (Val ''Alice'') ''2024-01-02T09:30:00Z''],
           printed = [], requests = [1]\<rparr>"
  unfolding fetch_commits_def
  by (subst fetch_pages.simps) (simp add: two_day_api_def)

lemma fetch_commits_flaky:
  "fetch_commits flaky_api ow rp since until =
     Some \<lparr>fetched = [], printed = [FetchFailed ow rp HTTPError], requests = [1, 2]\<rparr>"
proof -
  have "\<forall>q. 1 \<le> q \<and> q < 2 \<longrightarrow>
          (\<exists>cs. flaky_api ow rp since until 100 q = Inr cs \<and> 100 \<le> length cs)"
    by (simp add: flaky_api_def)
  moreover have "flaky_api ow rp since until 100 2 = Inl HTTPError"
    by (simp add: flaky_api_def)
  moreover have "[1..<Suc 2] = [1, 2]"
    by (simp add: upt_rec)
  ultimately show ?thesis
    using fetch_commits_fail [of flaky_api ow rp since until 2 HTTPError] by simp
qed

lemma aggregate_two_day:
  "aggregate_commits_by_day sample_day_of
     [commit_of Absent ''2024-01-01T10:00:00Z'', commit_of (Val ''Alice'') ''2024-01-02T09:30:00Z'']
   = Inr [((2024, 1, 1), \<lparr>commits = 1, authors = {Some ''Unknown''}\<rparr>),
          ((2024, 1, 2), \<lparr>commits = 1, authors = {Some ''Alice''}\<rparr>)]"
  by (simp add: sample_defs activity_defs)

lemma update_activity_two_day:
  "update_activity_in_db sample_day_of two_day_api ''o'' ''r'' ''s'' ''u'' empty_store =
     Some (Inr (),
       \<lparr>top100 = [],
        activity =
          [\<lparr>a_owner = ''o'', a_repo = ''r'', a_date = (2024, 1, 1), a_commits = 1,
             a_authors = {Some ''Unknown''}\<rparr>,
           \<lparr>a_owner = ''o'', a_repo = ''r'', a_date = (2024, 1, 2), a_commits = 1,
             a_authors = {Some ''Alice''}\<rparr>],
        calls =
          [UpdateActivity ''o'' ''r'' (2024, 1, 1) 1 {Some ''Unknown''},
           InsertActivity ''o'' ''r'' (2024, 1, 1) 1 {Some ''Unknown''},
           UpdateActivity ''o'' ''r'' (2024, 1, 2) 1 {Some ''Alice''},
           InsertActivity ''o'' ''r'' (2024, 1, 2) 1 {Some ''Alice''}],
        faults = {}\<rparr>)"
  by (simp add: fetch_commits_two_day sample_defs activity_defs)


section \<open>Reconciling the ranking\<close>

text \<open>
  Claim C1. When \<^verbatim>\<open>update_top100_in_db\<close> has fetched the ranking and ends without a
  failure of the store, the full names in \<^verbatim>\<open>top100\<close> are exactly the full names of
  the ranking, whatever the table held before; and of the statements it sent, the first is
  the \<^verbatim>\<open>DELETE\<close> of the rows outside the ranking and all later ones are upserts.
\<close>

theorem top100_names_are_the_ranking:
  assumes "fetch_top100_repos reply = Inr repos"
      and "update_top100_in_db reply s = (Inr u, s')"
  shows "repo ` set (top100 s') = repo ` set repos
         \<and> (\<exists>new. calls s' = calls s @ DeleteTop100NotIn (repo ` set repos) # new
                \<and> list_all top100_upsert new)"
proof -
  let ?del = "DeleteTop100NotIn (repo ` set repos)"
  obtain r1 s1 where 1: "execute ?del s = (r1, s1)" by (cases "execute ?del s")
  with assms obtain n where n: "r1 = Inr n"
    by (cases r1) (auto simp: update_top100_in_db_def)
  with assms 1 have 2: "upsert_repos repos s1 = (Inr u, s')"
    by (simp add: update_top100_in_db_def)
  have t1: "top100 s1 = filter (\<lambda>r. repo r \<in> repo ` set repos) (top100 s)"
    using execute_ok [OF 1 [unfolded n]] by auto
  have c1: "calls s1 = calls s @ [?del]" using 1 by (rule execute_calls)
  from upsert_repos_ok [OF 2] obtain new where
    t': "top100 s' = foldl (\<lambda>rows repo_data. upsert_rows repo_data rows) (top100 s1) repos"
    and c': "calls s' = calls s1 @ new" "list_all top100_upsert new"
    by blast
  have "repo ` set (top100 s') = repo ` set repos"
    unfolding t' repo_foldl_upsert_rows t1 by auto
  then show ?thesis using c1 c' by simp
qed

theorem top100_names_are_the_ranking_witness:
  "fst (update_top100_in_db sample_reply prior_store) = Inr ()
   \<and> repo ` set (top100 (snd (update_top100_in_db sample_reply prior_store))) = {''a/x'', ''b/y''}
   \<and> hd (calls (snd (update_top100_in_db sample_reply prior_store)))
       = DeleteTop100NotIn {''a/x'', ''b/y''}"
  using top100_names_are_the_ranking [OF fetch_top100_repos_sample update_top100_in_db_sample]
  by (simp add: update_top100_in_db_sample calls_prior_store)

text \<open>
  Claim C2, for a full name that the ranking holds exactly once. Every row of that name
  after the reconciliation has the position and the metrics of the ranking. If the name was
  in the table before, the row's previous position is the current position of a row of that
  name before; if it was not, the previous position is null.
\<close>

theorem previous_position_is_prior_current:
  assumes "fetch_top100_repos reply = Inr repos"
      and "update_top100_in_db reply s = (Inr u, s')"
      and "x \<in> set repos" "length (filter (\<lambda>y. repo y = repo x) repos) = 1"
      and "r' \<in> set (top100 s')" "repo r' = repo x"
  shows "(if repo x \<in> repo ` set (top100 s)
          then \<exists>r \<in> set (top100 s). repo r = repo x \<and> position_prev r' = Some (position_cur r)
          else position_prev r' = None)
         \<and> position_cur r' = position_cur x \<and> stars r' = stars x \<and> watchers r' = watchers x
         \<and> forks r' = forks x \<and> open_issues r' = open_issues x \<and> language r' = language x"
proof -
  let ?del = "DeleteTop100NotIn (repo ` set repos)"
  let ?P = "\<lambda>r. repo r = repo x"
  obtain r1 s1 where 1: "execute ?del s = (r1, s1)" by (cases "execute ?del s")
  with assms(1,2) obtain n where n: "r1 = Inr n"
    by (cases r1) (auto simp: update_top100_in_db_def)
  with assms(1,2) 1 have 2: "upsert_repos repos s1 = (Inr u, s')"
    by (simp add: update_top100_in_db_def)
  have t1: "top100 s1 = filter (\<lambda>r. repo r \<in> repo ` set repos) (top100 s)"
    using execute_ok [OF 1 [unfolded n]] by auto
  have f1: "filter ?P (top100 s1) = filter ?P (top100 s)"
    unfolding t1 using assms(3) by (auto intro: filter_cong)
  from once_split [OF assms(3,4)] obtain before after where
    sp: "repos = before @ x # after" "repo x \<notin> repo ` set before" "repo x \<notin> repo ` set after"
    by blast
  have t': "top100 s' = foldl (\<lambda>rows repo_data. upsert_rows repo_data rows) (top100 s1) repos"
    using upsert_repos_ok [OF 2] by blast
  have f': "filter ?P (top100 s') =
      (if filter ?P (top100 s) = [] then [x] else map (shift_row x) (filter ?P (top100 s)))"
    unfolding t' sp(1) filter_foldl_upsert_rows_once [OF sp(2,3)] f1 ..
  from assms(5,6) have in': "r' \<in> set (filter ?P (top100 s'))" by simp
  show ?thesis
  proof (cases "filter ?P (top100 s) = []")
    case True
    then have "repo x \<notin> repo ` set (top100 s)" by (auto simp: filter_empty_conv)
    moreover from True f' in' have "r' = x" by simp
    ultimately show ?thesis
      using fetch_top100_repos_prev [OF assms(1,3)] by simp
  next
    case False
    with f' in' obtain r where r: "r \<in> set (top100 s)" "repo r = repo x" "r' = shift_row x r"
      by auto
    then have "repo x \<in> repo ` set (top100 s)" by (metis imageI)
    with r show ?thesis by (auto simp: shift_row_def)
  qed
qed

theorem previous_position_is_prior_current_witness:
  "map position_cur (filter (\<lambda>r. repo r = ''a/x'') (top100 prior_store)) = [5]
   \<and> map position_prev
        (filter (\<lambda>r. repo r = ''a/x'') (top100 (snd (update_top100_in_db sample_reply prior_store))))
       = [Some 5]"
  using previous_position_is_prior_current
      [OF fetch_top100_repos_sample update_top100_in_db_sample,
       where x = "\<lparr>repo = ''a/x'', owner = ''a'', position_cur = 1, position_prev = None,
                   stars = 90, watchers = 90, forks = 3, open_issues = 2, language = Some ''C''\<rparr>"
         and r' = "\<lparr>repo = ''a/x'', owner = ''a'', position_cur = 1, position_prev = Some 5,
                   stars = 90, watchers = 90, forks = 3, open_issues = 2, language = Some ''C''\<rparr>"]
  by (simp add: update_top100_in_db_sample top100_prior_store row_of_def)

text \<open>
  Claim C2 as it was stated fails for a name the ranking holds twice: \<^verbatim>\<open>a/x\<close> stood
  at position 5, the ranking has it at 1 and again at 2, and its previous position ends as
  1, the position the first of the two upserts had just written.
\<close>

theorem duplicate_name_counterexample:
  "top100 prior_store = [row_of ''c/z'' ''c'' 1, row_of ''a/x'' ''a'' 5]
   \<and> position_cur (row_of ''a/x'' ''a'' 5) = 5
   \<and> update_top100_in_db dup_reply prior_store
     = (Inr (),
        \<lparr>top100 =
           [\<lparr>repo = ''a/x'', owner = ''a'', position_cur = 2, position_prev = Some 1, stars = 90,
              watchers = 90, forks = 3, open_issues = 2, language = None\<rparr>],
         activity = [],
         calls =
           [DeleteTop100NotIn {''a/x''},
            UpdateTop100 ''a/x'' 1 90 90 3 2 None,
            UpdateTop100 ''a/x'' 2 90 90 3 2 None],
         faults = {}\<rparr>)"
  by (simp add: sample_defs top100_defs)

section \<open>Fetching the ranking\<close>




section \<open>Fetching the commits\<close>

text \<open>
  Claim C5. Page \<open>p\<close> is requested exactly when the pages before it were full. If that
  request raises, \<^verbatim>\<open>fetch_commits\<close> returns: its result is the empty list, also when
  earlier pages had commits, one line naming the repository and the exception is printed,
  and no page after \<open>p\<close> is requested. \<^verbatim>\<open>update_activity_in_db\<close> then ends normally
  without touching the store, and the loop of \<^verbatim>\<open>refresh_data\<close> goes on with the next
  repository.
\<close>

theorem fetch_failure_gives_empty:
  assumes "api ow rp since until 100 p = Inl e" "1 \<le> p"
      "\<forall>q. 1 \<le> q \<and> q < p \<longrightarrow> (\<exists>cs. api ow rp since until 100 q = Inr cs \<and> 100 \<le> length cs)"
  shows "fetch_commits api ow rp since until
           = Some \<lparr>fetched = [], printed = [FetchFailed ow rp e], requests = [1..<Suc p]\<rparr>
         \<and> update_activity_in_db day_of api ow rp since until s = Some (Inr (), s)
         \<and> (after_slash fn = Some rp \<longrightarrow>
              sync_records day_of api since until ((ow, fn) # records) s
                = sync_records day_of api since until records s)"
  using assms fetch_commits_fail [of api ow rp since until p e]
  by (simp add: update_activity_in_db_def aggregate_commits_by_day_def)

theorem fetch_failure_gives_empty_witness:
  "flaky_api ''o'' ''r'' ''s'' ''u'' 100 2 = Inl HTTPError
   \<and> (\<exists>cs. flaky_api ''o'' ''r'' ''s'' ''u'' 100 1 = Inr cs \<and> 100 \<le> length cs)
   \<and> fetch_commits flaky_api ''o'' ''r'' ''s'' ''u''
       = Some \<lparr>fetched = [], printed = [FetchFailed ''o'' ''r'' HTTPError], requests = [1, 2]\<rparr>
   \<and> update_activity_in_db sample_day_of flaky_api ''o'' ''r'' ''s'' ''u'' empty_store
       = Some (Inr (), empty_store)
   \<and> sync_records sample_day_of flaky_api ''s'' ''u'' [(''o'', ''o/r'')] empty_store
       = Some (Inr (), empty_store)"
proof -
  have 1: "flaky_api ''o'' ''r'' ''s'' ''u'' 100 2 = Inl HTTPError"
    by (simp add: flaky_api_def)
  have 2: "\<forall>q. 1 \<le> q \<and> q < 2 \<longrightarrow>
             (\<exists>cs. flaky_api ''o'' ''r'' ''s'' ''u'' 100 q = Inr cs \<and> 100 \<le> length cs)"
    by (simp add: flaky_api_def)
  have 3: "[1..<Suc 2] = [1, 2]"
    by (simp add: upt_rec)
  show ?thesis
    using 1 2 3
      fetch_failure_gives_empty [where api = flaky_api and ow = "''o''" and rp = "''r''"
        and since = "''s''" and until = "''u''" and p = 2 and e = HTTPError
        and day_of = sample_day_of and s = empty_store and fn = "''o/r''" and records = "[]"]
    by simp
qed

text \<open>
  Claim C6. With 100 commits on each of the pages 1, 2 and 3 and none on page 4,
  \<^verbatim>\<open>fetch_commits\<close> returns, its result is the 300 commits of the three pages in
  order, and it has requested the pages 1, 2, 3, 4, in this order and no other.
\<close>

theorem three_full_pages:
  assumes "api ow rp since until 100 1 = Inr p1" "length p1 = 100"
      "api ow rp since until 100 2 = Inr p2" "length p2 = 100"
      "api ow rp since until 100 3 = Inr p3" "length p3 = 100"
      "api ow rp since until 100 4 = Inr []"
  shows "\<exists>fr. fetch_commits api ow rp since until = Some fr \<and> fetched fr = p1 @ p2 @ p3
           \<and> length (fetched fr) = 3 * 100 \<and> requests fr = [1, 2, 3, 4] \<and> printed fr = []"
proof -
  have ne: "p1 \<noteq> []" "p2 \<noteq> []" "p3 \<noteq> []" using assms by auto
  have 4: "fetch_pages (\<lambda>page. api ow rp since until 100 page) 100 4 (p1 @ p2 @ p3) [1, 2, 3]
           = Some (Inr (p1 @ p2 @ p3), [1, 2, 3, 4])"
    using assms by (subst fetch_pages.simps) (simp del: One_nat_def)
  have 3: "fetch_pages (\<lambda>page. api ow rp since until 100 page) 100 3 (p1 @ p2) [1, 2]
           = Some (Inr (p1 @ p2 @ p3), [1, 2, 3, 4])"
    using assms ne 4 by (subst fetch_pages.simps) (simp del: One_nat_def)
  have 2: "fetch_pages (\<lambda>page. api ow rp since until 100 page) 100 2 p1 [1]
           = Some (Inr (p1 @ p2 @ p3), [1, 2, 3, 4])"
    using assms ne 3 by (subst fetch_pages.simps) (simp del: One_nat_def)
  have 1: "fetch_pages (\<lambda>page. api ow rp since until 100 page) 100 1 [] []
           = Some (Inr (p1 @ p2 @ p3), [1, 2, 3, 4])"
    using assms ne 2 by (subst fetch_pages.simps) (simp del: One_nat_def)
  show ?thesis using 1 assms by (simp add: fetch_commits_def)
qed

theorem three_full_pages_witness:
  "\<exists>fr. fetch_commits page_api ''o'' ''r'' ''a'' ''b'' = Some fr
      \<and> fetched fr = replicate 100 \<lparr>commit = Null\<rparr> @ replicate 100 \<lparr>commit = Null\<rparr>
            @ replicate 100 \<lparr>commit = Null\<rparr>
      \<and> length (fetched fr) = 300 \<and> requests fr = [1, 2, 3, 4] \<and> printed fr = []"
  using three_full_pages [of page_api "''o''" "''r''" "''a''" "''b''"
      "replicate 100 \<lparr>commit = Null\<rparr>" "replicate 100 \<lparr>commit = Null\<rparr>" "replicate 100 \<lparr>commit = Null\<rparr>"]
  by (simp add: page_api_def)

section \<open>Aggregating the commits\<close>

text \<open>
  Claim C7, at a commit whose author name is \<^verbatim>\<open>null\<close>: the key \<^verbatim>\<open>name\<close> is in the
  author object, so the code takes its value, and the day's authors are \<^verbatim>\<open>{None}\<close>,
  not \<^verbatim>\<open>{"Unknown"}\<close>.
\<close>

theorem null_author_name_is_not_unknown:
  "aggregate_commits_by_day sample_day_of [commit_of Null ''2024-01-01T00:00:00Z'']
     = Inr [((2024, 1, 1), \<lparr>commits = 1, authors = {None}\<rparr>)]"
  by (simp add: sample_defs activity_defs)

text \<open>
  With the key \<^verbatim>\<open>name\<close> absent the sentinel is used: two such commits on one day give
  two commits by \<^verbatim>\<open>"Unknown"\<close>.
\<close>

lemma absent_author_names_are_unknown:
  "aggregate_commits_by_day sample_day_of
     [commit_of Absent ''2024-01-01T00:00:00Z'', commit_of Absent ''2024-01-01T05:00:00Z'']
     = Inr [((2024, 1, 1), \<lparr>commits = 2, authors = {Some ''Unknown''}\<rparr>)]"
  by (simp add: sample_defs activity_defs)

text \<open>
  Claim C8. For commits that are all well-formed the aggregator returns, and the commit
  counts of its day buckets add up to the number of commits; for no commits it returns the
  empty mapping.
\<close>

theorem commit_counts_sum_to_length:
  "(\<forall>c \<in> set cs. well_formed day_of c) \<Longrightarrow>
     (\<exists>ds. aggregate_commits_by_day day_of cs = Inr ds \<and> total_commits ds = int (length cs))
     \<and> aggregate_commits_by_day day_of [] = Inr []"
  using aggregate_loop_well_formed [of cs day_of "[]"] aggregate_loop_total [of day_of cs "[]"]
  by (auto simp: aggregate_commits_by_day_def total_commits_def)

theorem commit_counts_sum_to_length_witness:
  "list_all (well_formed sample_day_of)
     [commit_of Absent ''2024-01-01T10:00:00Z'', commit_of (Val ''Alice'') ''2024-01-02T09:30:00Z'']
   \<and> (\<exists>ds. aggregate_commits_by_day sample_day_of
              [commit_of Absent ''2024-01-01T10:00:00Z'',
               commit_of (Val ''Alice'') ''2024-01-02T09:30:00Z''] = Inr ds
          \<and> total_commits ds = 2)"
  using commit_counts_sum_to_length
      [of "[commit_of Absent ''2024-01-01T10:00:00Z'',
            commit_of (Val ''Alice'') ''2024-01-02T09:30:00Z'']" sample_day_of]
  by (simp add: well_formed_def sample_defs)

text \<open>
  Claim C10. Every day bucket the aggregator returns has at least one commit and at least
  one author. Every statement \<^verbatim>\<open>update_activity_in_db\<close> sends, whether it ends normally
  or not, is an update or insert of an activity row with at least one commit and one
  author. When no commits were fetched it sends nothing and leaves the store as it was.
\<close>

theorem no_empty_day_written:
  "(aggregate_commits_by_day day_of cs = Inr ds \<longrightarrow>
      (\<forall>(d, stats) \<in> set ds. 1 \<le> commits stats \<and> authors stats \<noteq> {}))
   \<and> (update_activity_in_db day_of api ow rp since until s = Some (r, s') \<longrightarrow>
        (\<exists>new. calls s' = calls s @ new \<and> list_all activity_write_ok new))
   \<and> (fetch_commits api0 ow0 rp0 since0 until0 = Some fr \<and> fetched fr = [] \<longrightarrow>
        update_activity_in_db day_of0 api0 ow0 rp0 since0 until0 s0 = Some (Inr (), s0))"
proof (intro conjI impI)
  assume "aggregate_commits_by_day day_of cs = Inr ds"
  then show "\<forall>(d, stats) \<in> set ds. 1 \<le> commits stats \<and> authors stats \<noteq> {}"
    using aggregate_commits_by_day_ok [of day_of cs ds] by (simp add: daily_ok_def)
next
  assume a: "update_activity_in_db day_of api ow rp since until s = Some (r, s')"
  then obtain fr where fr: "fetch_commits api ow rp since until = Some fr"
    by (auto simp: update_activity_in_db_def split: option.splits)
  show "\<exists>new. calls s' = calls s @ new \<and> list_all activity_write_ok new"
  proof (cases "aggregate_commits_by_day day_of (fetched fr)")
    case (Inl e)
    with a fr have "s' = s" by (simp add: update_activity_in_db_def)
    then show ?thesis by simp
  next
    case (Inr ds)
    with a fr have "upsert_days ow rp ds s = (r, s')" by (simp add: update_activity_in_db_def)
    then show ?thesis using aggregate_commits_by_day_ok [OF Inr] by (rule upsert_days_calls)
  qed
next
  assume "fetch_commits api0 ow0 rp0 since0 until0 = Some fr \<and> fetched fr = []"
  then show "update_activity_in_db day_of0 api0 ow0 rp0 since0 until0 s0 = Some (Inr (), s0)"
    by (simp add: update_activity_in_db_def aggregate_commits_by_day_def)
qed

theorem no_empty_day_written_witness:
  "list_all (\<lambda>(d, stats). 1 \<le> commits stats \<and> authors stats \<noteq> {})
     [((2024, 1, 1), \<lparr>commits = 1, authors = {Some ''Unknown''}\<rparr>),
      ((2024, 1, 2), \<lparr>commits = 1, authors = {Some ''Alice''}\<rparr>)]
   \<and> list_all activity_write_ok
        [UpdateActivity ''o'' ''r'' (2024, 1, 1) 1 {Some ''Unknown''},
         InsertActivity ''o'' ''r'' (2024, 1, 1) 1 {Some ''Unknown''},
         UpdateActivity ''o'' ''r'' (2024, 1, 2) 1 {Some ''Alice''},
         InsertActivity ''o'' ''r'' (2024, 1, 2) 1 {Some ''Alice''}]
   \<and> update_activity_in_db sample_day_of flaky_api ''o'' ''r'' ''s'' ''u'' empty_store
       = Some (Inr (), empty_store)"
  using no_empty_day_written
      [where day_of = sample_day_of
         and cs = "[commit_of Absent ''2024-01-01T10:00:00Z'',
                    commit_of (Val ''Alice'') ''2024-01-02T09:30:00Z'']"
         and ds = "[((2024, 1, 1), \<lparr>commits = 1, authors = {Some ''Unknown''}\<rparr>),
                    ((2024, 1, 2), \<lparr>commits = 1, authors = {Some ''Alice''}\<rparr>)]"
         and api = two_day_api and ow = "''o''" and rp = "''r''" and since = "''s''"
         and until = "''u''" and s = empty_store and r = "Inr ()"
         and s' = "\<lparr>top100 = [],
             activity =
               [\<lparr>a_owner = ''o'', a_repo = ''r'', a_date = (2024, 1, 1), a_commits = 1,
                  a_authors = {Some ''Unknown''}\<rparr>,
                \<lparr>a_owner = ''o'', a_repo = ''r'', a_date = (2024, 1, 2), a_commits = 1,
                  a_authors = {Some ''Alice''}\<rparr>],
             calls =
               [UpdateActivity ''o'' ''r'' (2024, 1, 1) 1 {Some ''Unknown''},
                InsertActivity ''o'' ''r'' (2024, 1, 1) 1 {Some ''Unknown''},
                UpdateActivity ''o'' ''r'' (2024, 1, 2) 1 {Some ''Alice''},
                InsertActivity ''o'' ''r'' (2024, 1, 2) 1 {Some ''Alice''}],
             faults = {}\<rparr>"
         and ?api0.0 = flaky_api and ?ow0.0 = "''o''" and ?rp0.0 = "''r''" and ?since0.0 = "''s''"
         and ?until0.0 = "''u''" and ?s0.0 = empty_store and ?day_of0.0 = sample_day_of
         and fr = "\<lparr>fetched = [], printed = [FetchFailed ''o'' ''r'' HTTPError], requests = [1, 2]\<rparr>"]
    aggregate_two_day update_activity_two_day
    fetch_commits_flaky [of "''o''" "''r''" "''s''" "''u''"]
  by (simp add: empty_store_def)

section \<open>A failure of the store during the activity sync\<close>




section \<open>The activity endpoint\<close>

text \<open>
  Claim C9. With \<open>since\<close> after \<open>until\<close>, \<^verbatim>\<open>get_repo_activity\<close> raises the 400 and
  the store is as it was: no statement has been sent.
\<close>

theorem since_after_until_rejected:
  "since > until \<Longrightarrow>
     get_repo_activity ow rp since until s = (Inl (HTTPException 400 SinceAfterUntil), s)"
  by (simp add: get_repo_activity_def)

theorem since_after_until_rejected_witness:
  "((2024, 3, 10) :: date) > (2024, 3, 5) \<and>
   get_repo_activity ''o'' ''r'' (2024, 3, 10) (2024, 3, 5)
     \<lparr>top100 = [], activity = [], calls = [], faults = {}\<rparr>
   = (Inl (HTTPException 400 SinceAfterUntil),
      \<lparr>top100 = [], activity = [], calls = [], faults = {}\<rparr>)"
  using since_after_until_rejected [of "(2024, 3, 5)" "(2024, 3, 10)" "''o''" "''r''"
      "\<lparr>top100 = [], activity = [], calls = [], faults = {}\<rparr>"]
  by simp

end
